theory Spec2Isabelle
  imports Complex_Main
begin

section \<open>Data model of \<^verbatim>\<open>src/diagram/DiagramRenderer.js\<close>\<close>

text \<open>
  The numbers a diagram holds (zoom, pan, positions, what the browser reports) are
  idealised as exact reals: rounding is outside this model. Wherever the source divides,
  the theorems below assume a zoom inside \<^verbatim>\<open>[minZoom, maxZoom]\<close>, so that HOL's
  \<open>x / 0 = 0\<close> is never what a statement relies on.

  The argument of \<^verbatim>\<open>setZoom\<close> comes from the caller and may be any JavaScript number,
  \<^verbatim>\<open>NaN\<close> and the infinities included (a value that is not a number is converted
  first; \<^verbatim>\<open>undefined\<close> converts to \<^verbatim>\<open>NaN\<close>): it is a \<open>jsnum\<close>, and
  \<^verbatim>\<open>Math.min\<close> and \<^verbatim>\<open>Math.max\<close> are modelled on \<open>jsnum\<close> as JavaScript has them,
  returning \<^verbatim>\<open>NaN\<close> as soon as one argument is \<^verbatim>\<open>NaN\<close>.

  A JavaScript value that may be \<^verbatim>\<open>undefined\<close> is an \<open>option\<close>; truthiness
  (\<^verbatim>\<open>a && b\<close>, \<^verbatim>\<open>a || b\<close>) is written out: the empty string, \<^verbatim>\<open>0\<close> and
  \<^verbatim>\<open>undefined\<close> are falsy.
\<close>

datatype jsnum = NaN | NegInfinity | Num real | PosInfinity

fun js_le :: "jsnum \<Rightarrow> jsnum \<Rightarrow> bool" where
  "js_le NaN b = False"
| "js_le a NaN = False"
| "js_le NegInfinity b = True"
| "js_le a PosInfinity = True"
| "js_le (Num a) (Num b) = (a \<le> b)"
| "js_le a b = False"

definition Math_min :: "jsnum \<Rightarrow> jsnum \<Rightarrow> jsnum" where
  "Math_min a b = (if a = NaN \<or> b = NaN then NaN else if js_le a b then a else b)"

definition Math_max :: "jsnum \<Rightarrow> jsnum \<Rightarrow> jsnum" where
  "Math_max a b = (if a = NaN \<or> b = NaN then NaN else if js_le a b then b else a)"

definition truthy_str :: "string option \<Rightarrow> bool" where
  "truthy_str s = (case s of None \<Rightarrow> False | Some v \<Rightarrow> v \<noteq> [])"

definition truthy_num :: "nat option \<Rightarrow> bool" where
  "truthy_num n = (case n of None \<Rightarrow> False | Some v \<Rightarrow> v \<noteq> 0)"

text \<open>The schema objects handed to \<^verbatim>\<open>render\<close>: fields, tables, refs.\<close>

record field =
  field_name :: string
  field_type :: "string option"
  field_pk :: bool

record table =
  table_id :: "nat option"
  table_name :: string
  table_fields :: "field list"

record ref =
  ref_id :: "nat option"
  ref_name :: "string option"
  fromTable :: "string option"
  fromField :: "string option"
  toTable :: "string option"
  toField :: "string option"

record schema =
  schema_tables :: "table list option"
  schema_refs :: "ref list option"

record dbml_data =
  schemas :: "schema option list option"

text \<open>
  Keys of the two \<^verbatim>\<open>Map\<close>s: \<^verbatim>\<open>table.id || table.name\<close> and
  \<^verbatim>\<open>ref.id || ref.name\<close> are a number, a string, or \<^verbatim>\<open>undefined\<close>.
\<close>

datatype map_key = KNum nat | KStr string | KUndefined

definition table_key :: "table \<Rightarrow> map_key" where
  "table_key t = (if truthy_num (table_id t) then KNum (the (table_id t)) else KStr (table_name t))"

definition ref_key :: "ref \<Rightarrow> map_key" where
  "ref_key r =
     (if truthy_num (ref_id r) then KNum (the (ref_id r))
      else case ref_name r of None \<Rightarrow> KUndefined | Some n \<Rightarrow> KStr n)"

text \<open>
  A JavaScript \<^verbatim>\<open>Map\<close> iterates in insertion order and \<^verbatim>\<open>set\<close> on a key that is
  present replaces the value where it stands: an association list.
\<close>

fun map_set :: "'k \<Rightarrow> 'v \<Rightarrow> ('k \<times> 'v) list \<Rightarrow> ('k \<times> 'v) list" where
  "map_set k v [] = [(k, v)]"
| "map_set k v ((k', v') # m) = (if k' = k then (k, v) # m else (k', v') # map_set k v m)"

definition map_get :: "('k \<times> 'v) list \<Rightarrow> 'k \<Rightarrow> 'v option" where
  "map_get m k = map_of m k"

text \<open>
  SVG elements live in a store indexed by the order of their creation, since the
  table entry, its layer and the drag closure all hold the same element. Of a table's
  element the attributes \<^verbatim>\<open>x\<close> and \<^verbatim>\<open>y\<close> are kept, of a path element the
  attribute \<^verbatim>\<open>d\<close>; styling (colours, cursor, opacity, CSS classes) is not modelled.
\<close>

type_synonym elem_id = nat

record table_elem =
  attr_x :: real
  attr_y :: real

text \<open>
  A path string \<^verbatim>\<open>M x y L x y ...\<close> is kept as the list of its commands, each with
  its point.
\<close>

datatype path_cmd = MoveTo real real | LineTo real real

type_synonym path = "path_cmd list"

record point =
  pt_x :: real
  pt_y :: real
  pt_side :: string

record table_data =
  td_table :: table
  td_element :: elem_id
  td_x :: real
  td_y :: real
  td_width :: real
  td_height :: real

record rel_info =
  ri_fromTable :: string
  ri_fromField :: "string option"
  ri_toTable :: string
  ri_toField :: "string option"

text \<open>A \<^verbatim>\<open>RelationshipRenderer\<close>: its ref, its path element and the parsed endpoints.\<close>

record rel_renderer =
  rr_ref :: ref
  rr_element :: "elem_id option"
  rr_relInfo :: "rel_info option"

record rel_data =
  rd_ref :: ref
  rd_renderer :: rel_renderer
  rd_element :: elem_id

text \<open>
  The \<^verbatim>\<open>DiagramRenderer\<close> object. \<open>client_width\<close>, \<open>client_height\<close>,
  \<open>rect_left\<close> and \<open>rect_top\<close> are what the browser reports for the \<^verbatim>\<open>svg\<close>
  (\<^verbatim>\<open>clientWidth\<close>, \<^verbatim>\<open>clientHeight\<close>, \<^verbatim>\<open>getBoundingClientRect()\<close>);
  \<open>viewport_transform\<close> is the \<^verbatim>\<open>transform\<close> attribute of the viewport layer as
  (translate x, translate y, scale); \<open>zoom_listener\<close> says whether \<^verbatim>\<open>onZoomChange\<close>
  is set and \<open>zoom_notified\<close> lists the values it was called with, latest last.
  The pan gesture (\<^verbatim>\<open>startPan\<close>, \<^verbatim>\<open>updatePan\<close>, \<^verbatim>\<open>endPan\<close>) is not modelled.
\<close>

record diagram =
  zoom :: real
  pan_x :: real
  pan_y :: real
  tables :: "(map_key \<times> table_data) list"
  relationships :: "(map_key \<times> rel_data) list"
  layer_tables :: "elem_id list"
  layer_refs :: "elem_id list"
  table_elems :: "elem_id \<Rightarrow> table_elem"
  path_elems :: "elem_id \<Rightarrow> path option"
  next_elem :: elem_id
  viewport_transform :: "(real \<times> real \<times> real) option"
  zoom_listener :: bool
  zoom_notified :: "real list"
  client_width :: real
  client_height :: real
  rect_left :: real
  rect_top :: real

definition minZoom :: real where
  "minZoom = 0.25"

definition maxZoom :: real where
  "maxZoom = 3.0"

section \<open>Connector router\<close>

text \<open>\<^verbatim>\<open>Array.prototype.findIndex\<close>; \<open>None\<close> stands for \<^verbatim>\<open>-1\<close>.\<close>

fun findIndex :: "('a \<Rightarrow> bool) \<Rightarrow> 'a list \<Rightarrow> nat option" where
  "findIndex p [] = None"
| "findIndex p (x # xs) =
     (if p x then Some 0 else case findIndex p xs of None \<Rightarrow> None | Some i \<Rightarrow> Some (Suc i))"

text \<open>\<^verbatim>\<open>DiagramRenderer.findTableByName\<close>: the first entry, in insertion order, of that name.\<close>

fun findTableByName_entries :: "(map_key \<times> table_data) list \<Rightarrow> string \<Rightarrow> table_data option" where
  "findTableByName_entries [] tableName = None"
| "findTableByName_entries ((key, tableData) # es) tableName =
     (if table_name (td_table tableData) = tableName then Some tableData
      else findTableByName_entries es tableName)"

definition findTableByName :: "diagram \<Rightarrow> string \<Rightarrow> table_data option" where
  "findTableByName st tableName = findTableByName_entries (tables st) tableName"

text \<open>
  \<^verbatim>\<open>RelationshipRenderer.getConnectionPoint\<close>; the parameters \<^verbatim>\<open>otherTableData\<close>
  and \<^verbatim>\<open>isTarget\<close> are never read by the source. A field name that is
  \<^verbatim>\<open>undefined\<close> equals no field's name.
\<close>

definition getConnectionPoint :: "table_data \<Rightarrow> string option \<Rightarrow> point" where
  "getConnectionPoint tableData fieldName =
     (let fieldIndex = findIndex (\<lambda>f. Some (field_name f) = fieldName) (table_fields (td_table tableData));
          fieldY = (case fieldIndex of
                      None \<Rightarrow> td_y tableData + td_height tableData / 2
                    | Some i \<Rightarrow> td_y tableData + 35 + (real i * 30) + 15);
          fieldCenterX = td_x tableData + 50
      in \<lparr>pt_x = fieldCenterX, pt_y = fieldY, pt_side = ''center''\<rparr>)"

text \<open>\<^verbatim>\<open>RelationshipRenderer.createManhattanPath\<close>.\<close>

definition createManhattanPath :: "point \<Rightarrow> point \<Rightarrow> path" where
  "createManhattanPath start end_pt =
     (let startX = pt_x start; startY = pt_y start; endX = pt_x end_pt; endY = pt_y end_pt
      in if \<bar>startY - endY\<bar> < 15 then [MoveTo startX startY, LineTo endX endY]
         else (let tableMargin = 20; targetTableX = endX - 50; bendX = targetTableX - tableMargin
               in [MoveTo startX startY, LineTo bendX startY, LineTo bendX endY, LineTo endX endY]))"


text \<open>
  \<^verbatim>\<open>String.prototype.includes\<close> and \<^verbatim>\<open>String.prototype.split\<close> with a
  separator string. \<open>split_from sep cur rest\<close> scans \<open>rest\<close> from the left with the
  piece \<open>cur\<close> collected so far and cuts at each occurrence of \<open>sep\<close>, continuing
  behind it. The source only ever passes the separator \<^verbatim>\<open>'_to_'\<close>; the empty
  separator, which JavaScript treats apart, is not modelled.
\<close>

fun str_includes :: "string \<Rightarrow> string \<Rightarrow> bool" where
  "str_includes [] sep = (sep = [])"
| "str_includes (c # cs) sep = (take (length sep) (c # cs) = sep \<or> str_includes cs sep)"

function split_from :: "string \<Rightarrow> string \<Rightarrow> string \<Rightarrow> string list" where
  "split_from sep cur [] = [cur]"
| "split_from sep cur (c # cs) =
     (if sep \<noteq> [] \<and> take (length sep) (c # cs) = sep
      then cur # split_from sep [] (drop (length sep) (c # cs))
      else split_from sep (cur @ [c]) cs)"
  by pat_completeness auto
termination
  by (relation "measure (\<lambda>(sep, cur, rest). length rest)") auto

definition str_split :: "string \<Rightarrow> string \<Rightarrow> string list" where
  "str_split s sep = split_from sep [] s"

text \<open>\<^verbatim>\<open>RelationshipRenderer.parseRelationship\<close>; \<open>None\<close> is \<^verbatim>\<open>null\<close>.\<close>

definition parseRelationship :: "ref \<Rightarrow> rel_info option" where
  "parseRelationship r =
     (if truthy_str (fromTable r) \<and> truthy_str (toTable r)
      then Some \<lparr>ri_fromTable = the (fromTable r), ri_fromField = fromField r,
                 ri_toTable = the (toTable r), ri_toField = toField r\<rparr>
      else if truthy_str (ref_name r) \<and> str_includes (the (ref_name r)) ''_to_''
      then (case str_split (the (ref_name r)) ''_to_'' of
              [p0, p1] \<Rightarrow> Some \<lparr>ri_fromTable = p0, ri_fromField = Some ''id'',
                                  ri_toTable = p1, ri_toField = Some ''id''\<rparr>
            | _ \<Rightarrow> None)
      else None)"

text \<open>
  \<^verbatim>\<open>RelationshipRenderer.updatePath\<close>: the three early returns, then the attribute
  \<^verbatim>\<open>d\<close> of the renderer's path element is set.
\<close>

definition updatePath :: "rel_renderer \<Rightarrow> diagram \<Rightarrow> diagram" where
  "updatePath rr st =
     (case (rr_element rr, rr_relInfo rr) of
        (Some element, Some relInfo) \<Rightarrow>
          (case (findTableByName st (ri_fromTable relInfo), findTableByName st (ri_toTable relInfo)) of
             (Some fromTableData, Some toTableData) \<Rightarrow>
               (let fromPos = getConnectionPoint fromTableData (ri_fromField relInfo);
                    toPos = getConnectionPoint toTableData (ri_toField relInfo);
                    path = createManhattanPath fromPos toPos
                in st\<lparr>path_elems := (path_elems st)(element := Some path)\<rparr>)
           | _ \<Rightarrow> st)
      | _ \<Rightarrow> st)"

text \<open>
  \<^verbatim>\<open>RelationshipRenderer.render\<close> returns the renderer as it has become, the new
  path element (\<open>None\<close> for \<^verbatim>\<open>null\<close>) and the diagram. A new path element has no
  attribute \<^verbatim>\<open>d\<close>.
\<close>

definition rr_render :: "rel_renderer \<Rightarrow> diagram \<Rightarrow> rel_renderer \<times> elem_id option \<times> diagram" where
  "rr_render rr st =
     (case parseRelationship (rr_ref rr) of
        None \<Rightarrow> (rr, None, st)
      | Some relInfo \<Rightarrow>
          (let element = next_elem st;
               st1 = st\<lparr>next_elem := Suc element, path_elems := (path_elems st)(element := None)\<rparr>;
               rr1 = rr\<lparr>rr_element := Some element, rr_relInfo := Some relInfo\<rparr>
           in (rr1, Some element, updatePath rr1 st1)))"

section \<open>Diagram canvas\<close>

text \<open>The state a \<^verbatim>\<open>new DiagramRenderer(container)\<close> starts in, for an \<^verbatim>\<open>svg\<close> of the given geometry.\<close>

definition new_diagram :: "real \<Rightarrow> real \<Rightarrow> real \<Rightarrow> real \<Rightarrow> diagram" where
  "new_diagram cw ch rl rt =
     \<lparr>zoom = 1.0, pan_x = 0, pan_y = 0, tables = [], relationships = [],
      layer_tables = [], layer_refs = [],
      table_elems = (\<lambda>_. \<lparr>attr_x = 0, attr_y = 0\<rparr>), path_elems = (\<lambda>_. None), next_elem = 0,
      viewport_transform = None, zoom_listener = False, zoom_notified = [],
      client_width = cw, client_height = ch, rect_left = rl, rect_top = rt\<rparr>"

definition clearDiagram :: "diagram \<Rightarrow> diagram" where
  "clearDiagram st = st\<lparr>layer_tables := [], layer_refs := [], tables := [], relationships := []\<rparr>"

text \<open>
  \<^verbatim>\<open>renderTables\<close>: the \<^verbatim>\<open>forEach\<close> over the tables with its running index. Of the
  elements \<^verbatim>\<open>TableRenderer.render\<close> builds only the outer \<^verbatim>\<open>svg\<close> is kept, with
  the position set on it. \<^verbatim>\<open>makeDraggable\<close> registers the listeners of the closure
  modelled below by \<open>drag\<close>.
\<close>

fun renderTables_from :: "nat \<Rightarrow> table list \<Rightarrow> diagram \<Rightarrow> diagram" where
  "renderTables_from index [] st = st"
| "renderTables_from index (t # ts) st =
     (let tableElement = next_elem st;
          x = real (index mod 3) * 300 + 50;
          y = real (index div 3) * 250 + 50;
          st1 = st\<lparr>next_elem := Suc tableElement,
                   table_elems := (table_elems st)(tableElement := \<lparr>attr_x = x, attr_y = y\<rparr>),
                   layer_tables := layer_tables st @ [tableElement],
                   tables := map_set (table_key t)
                     \<lparr>td_table = t, td_element = tableElement, td_x = x, td_y = y,
                      td_width = 250, td_height = 35 + real (length (table_fields t)) * 30\<rparr>
                     (tables st)\<rparr>
      in renderTables_from (Suc index) ts st1)"

definition renderTables :: "table list \<Rightarrow> diagram \<Rightarrow> diagram" where
  "renderTables ts st = renderTables_from 0 ts st"

fun renderRelationships :: "ref list \<Rightarrow> diagram \<Rightarrow> diagram" where
  "renderRelationships [] st = st"
| "renderRelationships (r # rs) st =
     (case rr_render \<lparr>rr_ref = r, rr_element = None, rr_relInfo = None\<rparr> st of
        (refRenderer, None, st1) \<Rightarrow> renderRelationships rs st1
      | (refRenderer, Some refElement, st1) \<Rightarrow>
          renderRelationships rs
            (st1\<lparr>layer_refs := layer_refs st1 @ [refElement],
                 relationships := map_set (ref_key r)
                   \<lparr>rd_ref = r, rd_renderer = refRenderer, rd_element = refElement\<rparr>
                   (relationships st1)\<rparr>))"

text \<open>\<^verbatim>\<open>updateAllRelationships\<close>, which is also the second loop of \<^verbatim>\<open>autoLayout\<close>.\<close>

fun updatePath_each :: "(map_key \<times> rel_data) list \<Rightarrow> diagram \<Rightarrow> diagram" where
  "updatePath_each [] st = st"
| "updatePath_each ((key, relData) # es) st = updatePath_each es (updatePath (rd_renderer relData) st)"

definition updateAllRelationships :: "diagram \<Rightarrow> diagram" where
  "updateAllRelationships st = updatePath_each (relationships st) st"

text \<open>
  \<^verbatim>\<open>autoLayout\<close>: the first loop writes the grid position into each entry of the table
  map, in the map's order, and onto the entry's element.
\<close>

fun autoLayout_tables ::
  "nat \<Rightarrow> (map_key \<times> table_data) list \<Rightarrow> (elem_id \<Rightarrow> table_elem)
     \<Rightarrow> (map_key \<times> table_data) list \<times> (elem_id \<Rightarrow> table_elem)" where
  "autoLayout_tables index [] els = ([], els)"
| "autoLayout_tables index ((key, tableData) # es) els =
     (let cols = 3; spacing = 300;
          x = real (index mod cols) * spacing + 50;
          y = real (index div cols) * 250 + 50;
          (es', els') = autoLayout_tables (Suc index) es
             (els(td_element tableData := \<lparr>attr_x = x, attr_y = y\<rparr>))
      in ((key, tableData\<lparr>td_x := x, td_y := y\<rparr>) # es', els'))"

definition autoLayout :: "diagram \<Rightarrow> diagram" where
  "autoLayout st =
     (let (tables', els') = autoLayout_tables 0 (tables st) (table_elems st)
      in updatePath_each (relationships st) (st\<lparr>tables := tables', table_elems := els'\<rparr>))"

text \<open>\<^verbatim>\<open>DiagramRenderer.render\<close>, with \<^verbatim>\<open>schemas[0]\<close> of an empty array \<^verbatim>\<open>undefined\<close>.\<close>

definition first_schema :: "dbml_data option \<Rightarrow> schema option" where
  "first_schema dbmlData =
     (case dbmlData of
        None \<Rightarrow> None
      | Some d \<Rightarrow> (case schemas d of None \<Rightarrow> None | Some [] \<Rightarrow> None | Some (s # _) \<Rightarrow> s))"

definition render :: "dbml_data option \<Rightarrow> diagram \<Rightarrow> diagram" where
  "render dbmlData st =
     (case first_schema dbmlData of
        None \<Rightarrow> clearDiagram st
      | Some schema \<Rightarrow>
          autoLayout
            (renderRelationships (case schema_refs schema of None \<Rightarrow> [] | Some rs \<Rightarrow> rs)
               (renderTables (case schema_tables schema of None \<Rightarrow> [] | Some ts \<Rightarrow> ts)
                  (clearDiagram st))))"

section \<open>Coordinate transform, zoom\<close>

definition updateViewport :: "diagram \<Rightarrow> diagram" where
  "updateViewport st = st\<lparr>viewport_transform := Some (pan_x st, pan_y st, zoom st)\<rparr>"

text \<open>\<^verbatim>\<open>if (this.onZoomChange) this.onZoomChange(this.state.zoom)\<close>.\<close>

definition notifyZoomChange :: "diagram \<Rightarrow> diagram" where
  "notifyZoomChange st =
     (if zoom_listener st then st\<lparr>zoom_notified := zoom_notified st @ [zoom st]\<rparr> else st)"

definition screenToWorld :: "diagram \<Rightarrow> real \<Rightarrow> real \<Rightarrow> real \<times> real" where
  "screenToWorld st screenX screenY = ((screenX - pan_x st) / zoom st, (screenY - pan_y st) / zoom st)"

definition worldToScreen :: "diagram \<Rightarrow> real \<Rightarrow> real \<Rightarrow> real \<times> real" where
  "worldToScreen st worldX worldY = (worldX * zoom st + pan_x st, worldY * zoom st + pan_y st)"

text \<open>
  \<^verbatim>\<open>setZoom\<close> stores \<^verbatim>\<open>Math.max(minZoom, Math.min(maxZoom, zoom))\<close>. A diagram holds
  real numbers; when the value stored is \<^verbatim>\<open>NaN\<close> the result is \<open>ZoomIsNaN\<close>: the
  diagram's zoom is \<^verbatim>\<open>NaN\<close> from then on, which is not an exception.
\<close>

datatype zoom_result = Zoomed diagram | ZoomIsNaN

definition setZoom :: "jsnum \<Rightarrow> diagram \<Rightarrow> zoom_result" where
  "setZoom z st =
     (case Math_max (Num minZoom) (Math_min (Num maxZoom) z) of
        Num c \<Rightarrow> Zoomed (notifyZoomChange (updateViewport (st\<lparr>zoom := c\<rparr>)))
      | _ \<Rightarrow> ZoomIsNaN)"

definition zoomIn :: "diagram \<Rightarrow> zoom_result" where
  "zoomIn st = (let newZoom = min maxZoom (zoom st * 1.1) in setZoom (Num newZoom) st)"

definition zoomOut :: "diagram \<Rightarrow> zoom_result" where
  "zoomOut st = (let newZoom = max minZoom (zoom st / 1.1) in setZoom (Num newZoom) st)"

definition zoomToStandard :: "diagram \<Rightarrow> zoom_result" where
  "zoomToStandard st = setZoom (Num 1.0) st"

definition resetZoom :: "diagram \<Rightarrow> diagram" where
  "resetZoom st = notifyZoomChange (updateViewport (st\<lparr>zoom := 1.0, pan_x := 0, pan_y := 0\<rparr>))"

text \<open>The wheel listener of \<^verbatim>\<open>setupZoomPan\<close>.\<close>

record wheel_event =
  we_clientX :: real
  we_clientY :: real
  we_deltaY :: real

definition onWheel :: "wheel_event \<Rightarrow> diagram \<Rightarrow> diagram" where
  "onWheel e st =
     (let mouseX = we_clientX e - rect_left st;
          mouseY = we_clientY e - rect_top st;
          zoomFactor = (if we_deltaY e > 0 then 0.95 else 1.05);
          newZoom = max minZoom (min maxZoom (zoom st * zoomFactor))
      in if newZoom \<noteq> zoom st
         then (let zoomPoint = screenToWorld st mouseX mouseY;
                   st1 = st\<lparr>zoom := newZoom\<rparr>;
                   newScreenPoint = worldToScreen st1 (fst zoomPoint) (snd zoomPoint);
                   st2 = st1\<lparr>pan_x := pan_x st1 + (mouseX - fst newScreenPoint),
                             pan_y := pan_y st1 + (mouseY - snd newScreenPoint)\<rparr>
               in notifyZoomChange (updateViewport st2))
         else st)"

text \<open>
  The operations that write the zoom, and a run of them in arrival order. Once the zoom
  is \<^verbatim>\<open>NaN\<close> the run is outside what a diagram holds and stays \<open>ZoomIsNaN\<close>.
\<close>

datatype zoom_op = ZoomIn | ZoomOut | SetZoom jsnum | Wheel wheel_event | ZoomToStandard | ResetZoom

fun zoom_step :: "zoom_op \<Rightarrow> diagram \<Rightarrow> zoom_result" where
  "zoom_step ZoomIn st = zoomIn st"
| "zoom_step ZoomOut st = zoomOut st"
| "zoom_step (SetZoom z) st = setZoom z st"
| "zoom_step (Wheel e) st = Zoomed (onWheel e st)"
| "zoom_step ZoomToStandard st = zoomToStandard st"
| "zoom_step ResetZoom st = Zoomed (resetZoom st)"

fun zoom_run :: "zoom_op list \<Rightarrow> diagram \<Rightarrow> zoom_result" where
  "zoom_run [] st = Zoomed st"
| "zoom_run (op # ops) st =
     (case zoom_step op st of ZoomIsNaN \<Rightarrow> ZoomIsNaN | Zoomed st' \<Rightarrow> zoom_run ops st')"

section \<open>Drag gesture\<close>

text \<open>
  The closure of \<^verbatim>\<open>makeDraggable(element, table)\<close>: its variables, the element and
  the table it was made for. The four start values are \<^verbatim>\<open>undefined\<close> until the first
  \<^verbatim>\<open>mousedown\<close> and are read only while \<open>isDragging\<close> holds. Every table element
  has its header, so the early return of \<^verbatim>\<open>makeDraggable\<close> is never taken.
\<close>

record mouse_event =
  me_clientX :: real
  me_clientY :: real

record drag =
  isDragging :: bool
  startX :: real
  startY :: real
  startMouseX :: real
  startMouseY :: real
  drag_element :: elem_id
  drag_table :: table

definition makeDraggable :: "elem_id \<Rightarrow> table \<Rightarrow> drag" where
  "makeDraggable element t =
     \<lparr>isDragging = False, startX = 0, startY = 0, startMouseX = 0, startMouseY = 0,
      drag_element = element, drag_table = t\<rparr>"

definition onMouseDown :: "drag \<Rightarrow> mouse_event \<Rightarrow> diagram \<Rightarrow> drag" where
  "onMouseDown d e st =
     d\<lparr>isDragging := True,
       startMouseX := me_clientX e - rect_left st,
       startMouseY := me_clientY e - rect_top st,
       startX := attr_x (table_elems st (drag_element d)),
       startY := attr_y (table_elems st (drag_element d))\<rparr>"

definition onMouseMove :: "drag \<Rightarrow> mouse_event \<Rightarrow> diagram \<Rightarrow> diagram" where
  "onMouseMove d e st =
     (if \<not> isDragging d then st
      else
        (let currentMouseX = me_clientX e - rect_left st;
             currentMouseY = me_clientY e - rect_top st;
             deltaX = currentMouseX - startMouseX d;
             deltaY = currentMouseY - startMouseY d;
             newX = startX d + deltaX;
             newY = startY d + deltaY;
             viewportWidth = client_width st / zoom st;
             viewportHeight = client_height st / zoom st;
             constrainedX = max (- 1000) (min newX (viewportWidth + 1000));
             constrainedY = max (- 1000) (min newY (viewportHeight + 1000));
             st1 = st\<lparr>table_elems := (table_elems st)
                        (drag_element d := \<lparr>attr_x = constrainedX, attr_y = constrainedY\<rparr>)\<rparr>;
             st2 = (case map_get (tables st1) (table_key (drag_table d)) of
                      None \<Rightarrow> st1
                    | Some tableData \<Rightarrow>
                        st1\<lparr>tables := map_set (table_key (drag_table d))
                               (tableData\<lparr>td_x := constrainedX, td_y := constrainedY\<rparr>) (tables st1)\<rparr>)
         in updateAllRelationships st2))"

definition onMouseUp :: "drag \<Rightarrow> drag" where
  "onMouseUp d = d\<lparr>isDragging := False\<rparr>"

section \<open>The table map after \<open>renderTables\<close>\<close>

text \<open>
  The entries \<open>renderTables\<close> appends for a list of tables with pairwise distinct keys,
  from a given running index and first element: used to state what the table map holds.
\<close>

fun table_entries :: "nat \<Rightarrow> elem_id \<Rightarrow> table list \<Rightarrow> (map_key \<times> table_data) list" where
  "table_entries index el [] = []"
| "table_entries index el (t # ts) =
     (table_key t,
      \<lparr>td_table = t, td_element = el,
       td_x = real (index mod 3) * 300 + 50, td_y = real (index div 3) * 250 + 50,
       td_width = 250, td_height = 35 + real (length (table_fields t)) * 30\<rparr>)
     # table_entries (Suc index) (Suc el) ts"

section \<open>Example inputs\<close>

text \<open>Concrete schema objects on which the theorems below are instantiated.\<close>

definition users_table :: table where
  "users_table = \<lparr>table_id = None, table_name = ''users'',
     table_fields = [\<lparr>field_name = ''id'', field_type = Some ''int'', field_pk = True\<rparr>,
                     \<lparr>field_name = ''email'', field_type = Some ''varchar'', field_pk = False\<rparr>,
                     \<lparr>field_name = ''id'', field_type = None, field_pk = False\<rparr>]\<rparr>"

definition users_data :: table_data where
  "users_data = \<lparr>td_table = users_table, td_element = 0, td_x = 50, td_y = 50,
     td_width = 250, td_height = 125\<rparr>"

definition posts_table :: table where
  "posts_table = \<lparr>table_id = Some 1, table_name = ''posts'',
     table_fields = [\<lparr>field_name = ''id'', field_type = Some ''int'', field_pk = True\<rparr>,
                     \<lparr>field_name = ''user_id'', field_type = Some ''int'', field_pk = False\<rparr>]\<rparr>"

definition posts_data :: table_data where
  "posts_data = \<lparr>td_table = posts_table, td_element = 1, td_x = 350, td_y = 50,
     td_width = 250, td_height = 95\<rparr>"

definition two_tables :: diagram where
  "two_tables = (new_diagram 800 600 10 20)
     \<lparr>tables := [(KStr ''users'', users_data), (KNum 1, posts_data)],
      layer_tables := [0, 1],
      table_elems := (\<lambda>_. \<lparr>attr_x = 0, attr_y = 0\<rparr>)
         (0 := \<lparr>attr_x = 50, attr_y = 50\<rparr>, 1 := \<lparr>attr_x = 350, attr_y = 50\<rparr>),
      next_elem := 3\<rparr>"

definition posts_users_ref :: ref where
  "posts_users_ref = \<lparr>ref_id = None, ref_name = Some ''posts_to_users'', fromTable = Some ''posts'',
                 fromField = Some ''user_id'', toTable = Some ''users'', toField = Some ''id''\<rparr>"

definition posts_users_renderer :: rel_renderer where
  "posts_users_renderer =
     \<lparr>rr_ref = posts_users_ref,
      rr_element = Some 2,
      rr_relInfo = Some \<lparr>ri_fromTable = ''posts'', ri_fromField = Some ''user_id'',
                          ri_toTable = ''users'', ri_toField = Some ''id''\<rparr>\<rparr>"

definition posts_tags_renderer :: rel_renderer where
  "posts_tags_renderer =
     \<lparr>rr_ref = \<lparr>ref_id = None, ref_name = None, fromTable = Some ''posts'',
                 fromField = Some ''tag_id'', toTable = Some ''tags'', toField = Some ''id''\<rparr>,
      rr_element = Some 2,
      rr_relInfo = Some \<lparr>ri_fromTable = ''posts'', ri_fromField = Some ''tag_id'',
                          ri_toTable = ''tags'', ri_toField = Some ''id''\<rparr>\<rparr>"


definition orders_customers_ref :: ref where
  "orders_customers_ref = \<lparr>ref_id = None, ref_name = Some ''orders_to_customers'', fromTable = None,
                 fromField = None, toTable = None, toField = None\<rparr>"

definition orders_customers_partial_ref :: ref where
  "orders_customers_partial_ref = \<lparr>ref_id = None, ref_name = Some ''orders_to_customers'',
                 fromTable = Some ''orders'', fromField = None,
                 toTable = Some ''customers'', toField = None\<rparr>"

definition unresolved_ref :: ref where
  "unresolved_ref = \<lparr>ref_id = Some 7, ref_name = Some ''orders'', fromTable = Some ''orders'',
                 fromField = Some ''customer_id'', toTable = None, toField = None\<rparr>"

text \<open>The two tables with their relationship, zoomed to 2.\<close>

definition dragged_state :: diagram where
  "dragged_state = two_tables
     \<lparr>zoom := 2,
      relationships :=
       [(KStr ''posts_to_users'',
         \<lparr>rd_ref = posts_users_ref, rd_renderer = posts_users_renderer, rd_element = 2\<rparr>)],
      viewport_transform := Some (0, 0, 2)\<rparr>"



definition zoom_ops_example :: "zoom_op list" where
  "zoom_ops_example =
     [ZoomIn, SetZoom (Num 10), ZoomIn, SetZoom NegInfinity, ZoomOut,
      Wheel \<lparr>we_clientX = 110, we_clientY = 220, we_deltaY = 1\<rparr>, SetZoom PosInfinity]"

definition users_drag :: drag where
  "users_drag = makeDraggable 0 users_table"

section \<open>Properties of the connector router\<close>

text \<open>
  C4. For every pair of connection points: when the vertical coordinates differ by less
  than 15 the path is the single segment from start to end (2 points); otherwise it has
  4 points: start, then the bend column \<open>end.x - 50 - 20\<close> at the start's height, then
  the same column at the end's height, then the end point. The first and last segment
  are horizontal and the middle one is vertical.
\<close>

theorem createManhattanPath_shape:
  "(\<bar>pt_y s - pt_y e\<bar> < 15 \<longrightarrow>
      createManhattanPath s e = [MoveTo (pt_x s) (pt_y s), LineTo (pt_x e) (pt_y e)]
      \<and> length (createManhattanPath s e) = 2)
   \<and> (\<not> \<bar>pt_y s - pt_y e\<bar> < 15 \<longrightarrow>
      createManhattanPath s e =
        [MoveTo (pt_x s) (pt_y s), LineTo (pt_x e - 50 - 20) (pt_y s),
         LineTo (pt_x e - 50 - 20) (pt_y e), LineTo (pt_x e) (pt_y e)]
      \<and> length (createManhattanPath s e) = 4)"
  by (simp add: createManhattanPath_def Let_def)

theorem createManhattanPath_shape_witness:
  "\<bar>(100::real) - 110\<bar> < 15
   \<and> createManhattanPath \<lparr>pt_x = 100, pt_y = 100, pt_side = ''center''\<rparr>
        \<lparr>pt_x = 400, pt_y = 110, pt_side = ''center''\<rparr> = [MoveTo 100 100, LineTo 400 110]
   \<and> \<not> \<bar>(100::real) - 350\<bar> < 15
   \<and> createManhattanPath \<lparr>pt_x = 100, pt_y = 100, pt_side = ''center''\<rparr>
        \<lparr>pt_x = 400, pt_y = 350, pt_side = ''center''\<rparr>
      = [MoveTo 100 100, LineTo 330 100, LineTo 330 350, LineTo 400 350]"
  using createManhattanPath_shape [of "\<lparr>pt_x = 100, pt_y = 100, pt_side = ''center''\<rparr>"
      "\<lparr>pt_x = 400, pt_y = 110, pt_side = ''center''\<rparr>"]
    createManhattanPath_shape [of "\<lparr>pt_x = 100, pt_y = 100, pt_side = ''center''\<rparr>"
      "\<lparr>pt_x = 400, pt_y = 350, pt_side = ''center''\<rparr>"]
  by simp

lemma findIndex_first:
  "i < length xs \<Longrightarrow> p (xs ! i) \<Longrightarrow> (\<forall>j<i. \<not> p (xs ! j)) \<Longrightarrow> findIndex p xs = Some i"
proof (induction xs arbitrary: i)
  case Nil
  then show ?case by simp
next
  case (Cons x xs)
  show ?case
  proof (cases i)
    case 0
    with Cons.prems show ?thesis by simp
  next
    case (Suc k)
    from Cons.prems Suc have "\<not> p x" by auto
    moreover have "findIndex p xs = Some k"
    proof (rule Cons.IH)
      show "k < length xs" using Cons.prems Suc by simp
      show "p (xs ! k)" using Cons.prems Suc by simp
      show "\<forall>j<k. \<not> p (xs ! j)"
      proof (intro allI impI)
        fix j assume "j < k"
        then have "Suc j < i" using Suc by simp
        with Cons.prems(3) have "\<not> p ((x # xs) ! Suc j)" by blast
        then show "\<not> p (xs ! j)" by simp
      qed
    qed
    ultimately show ?thesis using Suc by simp
  qed
qed

lemma findIndex_absent: "(\<forall>x \<in> set xs. \<not> p x) \<Longrightarrow> findIndex p xs = None"
  by (induction xs) auto

text \<open>
  C5. For every table entry with stored position \<open>(x, y)\<close> and height \<open>h\<close> and every
  field name: the connection point lies at \<open>x + 50\<close>; when the name first occurs in the
  table's field list at index \<open>i\<close> its height is \<open>y + 35 + 30 i + 15\<close>; when the name
  does not occur it is \<open>y + h / 2\<close>.
\<close>

theorem getConnectionPoint_position:
  "pt_x (getConnectionPoint td (Some fn)) = td_x td + 50
   \<and> (i < length (table_fields (td_table td))
        \<and> field_name (table_fields (td_table td) ! i) = fn
        \<and> (\<forall>j<i. field_name (table_fields (td_table td) ! j) \<noteq> fn)
      \<longrightarrow> pt_y (getConnectionPoint td (Some fn)) = td_y td + 35 + 30 * real i + 15)
   \<and> (fn \<notin> field_name ` set (table_fields (td_table td))
      \<longrightarrow> pt_y (getConnectionPoint td (Some fn)) = td_y td + td_height td / 2)"
proof (intro conjI impI)
  show "pt_x (getConnectionPoint td (Some fn)) = td_x td + 50"
    by (simp add: getConnectionPoint_def Let_def)
next
  assume a: "i < length (table_fields (td_table td))
        \<and> field_name (table_fields (td_table td) ! i) = fn
        \<and> (\<forall>j<i. field_name (table_fields (td_table td) ! j) \<noteq> fn)"
  have "findIndex (\<lambda>f. Some (field_name f) = Some fn) (table_fields (td_table td)) = Some i"
    by (rule findIndex_first) (use a in auto)
  then show "pt_y (getConnectionPoint td (Some fn)) = td_y td + 35 + 30 * real i + 15"
    by (simp add: getConnectionPoint_def Let_def)
next
  assume "fn \<notin> field_name ` set (table_fields (td_table td))"
  then have "findIndex (\<lambda>f. Some (field_name f) = Some fn) (table_fields (td_table td)) = None"
    by (intro findIndex_absent) auto
  then show "pt_y (getConnectionPoint td (Some fn)) = td_y td + td_height td / 2"
    by (simp add: getConnectionPoint_def Let_def)
qed

theorem getConnectionPoint_position_witness:
  "pt_x (getConnectionPoint users_data (Some ''email'')) = 100
   \<and> pt_y (getConnectionPoint users_data (Some ''email'')) = 130
   \<and> pt_y (getConnectionPoint users_data (Some ''id'')) = 100
   \<and> pt_y (getConnectionPoint users_data (Some ''name'')) = 112.5"
  using getConnectionPoint_position [of users_data "''email''" 1]
    getConnectionPoint_position [of users_data "''id''" 0]
    getConnectionPoint_position [of users_data "''name''" 0]
  by (simp add: users_data_def users_table_def)

lemma tables_updatePath [simp]: "tables (updatePath rr st) = tables st"
  by (simp add: updatePath_def Let_def split: option.splits prod.splits)

lemma findTableByName_updatePath [simp]:
  "findTableByName (updatePath rr st) n = findTableByName st n"
  by (simp add: findTableByName_def)

text \<open>
  C8. For a relationship renderer whose endpoints resolved: when either named table is
  absent from the table map \<open>updatePath\<close> returns the state unchanged; when both are
  present it sets the path between the two connection points; and a second call in the
  same diagram state changes nothing more.
\<close>

theorem updatePath_noop_idempotent:
  "rr_element rr = Some el \<Longrightarrow> rr_relInfo rr = Some ri \<Longrightarrow>
   (findTableByName st (ri_fromTable ri) = None \<or> findTableByName st (ri_toTable ri) = None
      \<longrightarrow> updatePath rr st = st)
   \<and> (\<forall>f t. findTableByName st (ri_fromTable ri) = Some f \<and> findTableByName st (ri_toTable ri) = Some t
      \<longrightarrow> path_elems (updatePath rr st) el
            = Some (createManhattanPath (getConnectionPoint f (ri_fromField ri))
                      (getConnectionPoint t (ri_toField ri))))
   \<and> updatePath rr (updatePath rr st) = updatePath rr st"
proof (intro conjI impI allI)
  assume "rr_element rr = Some el" "rr_relInfo rr = Some ri"
    "findTableByName st (ri_fromTable ri) = None \<or> findTableByName st (ri_toTable ri) = None"
  then show "updatePath rr st = st"
    by (auto simp: updatePath_def split: option.splits)
next
  fix f t
  assume "rr_element rr = Some el" "rr_relInfo rr = Some ri"
    "findTableByName st (ri_fromTable ri) = Some f \<and> findTableByName st (ri_toTable ri) = Some t"
  then show "path_elems (updatePath rr st) el
            = Some (createManhattanPath (getConnectionPoint f (ri_fromField ri))
                      (getConnectionPoint t (ri_toField ri)))"
    by (simp add: updatePath_def Let_def)
next
  show "updatePath rr (updatePath rr st) = updatePath rr st"
  proof (cases "updatePath rr st = st")
    case True
    then show ?thesis by simp
  next
    case False
    then obtain e i f t where h: "rr_element rr = Some e" "rr_relInfo rr = Some i"
      "findTableByName st (ri_fromTable i) = Some f" "findTableByName st (ri_toTable i) = Some t"
      by (auto simp: updatePath_def split: option.splits)
    have "updatePath rr (updatePath rr st)
            = (updatePath rr st)\<lparr>path_elems := (path_elems (updatePath rr st))
                 (e := Some (createManhattanPath (getConnectionPoint f (ri_fromField i))
                      (getConnectionPoint t (ri_toField i))))\<rparr>"
      using h by (subst updatePath_def) (simp add: Let_def)
    also have "\<dots> = updatePath rr st"
      using h by (simp add: updatePath_def Let_def)
    finally show ?thesis .
  qed
qed

theorem updatePath_noop_idempotent_witness:
  "updatePath posts_tags_renderer two_tables = two_tables
   \<and> path_elems (updatePath posts_users_renderer two_tables) 2
       = Some [MoveTo 400 130, LineTo 30 130, LineTo 30 100, LineTo 100 100]
   \<and> updatePath posts_users_renderer (updatePath posts_users_renderer two_tables)
       = updatePath posts_users_renderer two_tables"
  using updatePath_noop_idempotent [of posts_tags_renderer 2
      "\<lparr>ri_fromTable = ''posts'', ri_fromField = Some ''tag_id'',
                          ri_toTable = ''tags'', ri_toField = Some ''id''\<rparr>" two_tables]
    updatePath_noop_idempotent [of posts_users_renderer 2
      "\<lparr>ri_fromTable = ''posts'', ri_fromField = Some ''user_id'',
                          ri_toTable = ''users'', ri_toField = Some ''id''\<rparr>" two_tables]
  by (simp add: posts_tags_renderer_def posts_users_renderer_def two_tables_def new_diagram_def
        findTableByName_def users_data_def users_table_def posts_data_def posts_table_def
        getConnectionPoint_def createManhattanPath_def Let_def)

lemma str_includes_short: "length s < length sep \<Longrightarrow> \<not> str_includes s sep"
proof (induction s)
  case Nil
  then show ?case by auto
next
  case (Cons c cs)
  have "length (take (length sep) (c # cs)) \<noteq> length sep"
    using Cons.prems by simp
  then have "take (length sep) (c # cs) \<noteq> sep" by metis
  with Cons show ?case by simp
qed

lemma split_from_absent:
  "\<not> str_includes rest sep \<Longrightarrow> split_from sep cur rest = [cur @ rest]"
  by (induction rest arbitrary: cur) auto

lemma split_from_nonempty [simp]: "split_from sep cur rest \<noteq> []"
  by (induction sep cur rest rule: split_from.induct) auto

lemma split_from_single:
  "sep \<noteq> [] \<Longrightarrow> split_from sep cur rest = [p] \<Longrightarrow> \<not> str_includes rest sep \<and> p = cur @ rest"
proof (induction rest arbitrary: cur)
  case Nil
  then show ?case by simp
next
  case (Cons c cs)
  from Cons.prems have n: "take (length sep) (c # cs) \<noteq> sep"
    by (auto split: if_splits)
  with Cons.prems have "split_from sep (cur @ [c]) cs = [p]" by simp
  from Cons.IH [OF Cons.prems(1) this] n show ?case by simp
qed

lemma take_sep_prefix:
  assumes "sep \<noteq> []"
  shows "take (length sep) (x # a @ sep @ b) = take (length sep) (x # a @ butlast sep)"
proof -
  have "x # a @ sep @ b = (x # a @ butlast sep) @ (last sep # b)"
    using assms by simp
  moreover have "length sep \<le> length (x # a @ butlast sep)"
    using assms by simp
  ultimately show ?thesis by (metis append_Nil2 diff_is_0_eq take_0 take_append)
qed

lemma split_from_first:
  "sep \<noteq> [] \<Longrightarrow> \<not> str_includes (a @ butlast sep) sep
   \<Longrightarrow> split_from sep cur (a @ sep @ b) = (cur @ a) # split_from sep [] b"
proof (induction a arbitrary: cur)
  case Nil
  then obtain c cs where sep: "sep = c # cs" by (cases sep) auto
  have "take (length sep) (c # cs @ b) = sep" by (simp add: sep)
  moreover have "drop (length sep) (c # cs @ b) = b" by (simp add: sep)
  ultimately have "split_from sep cur (c # cs @ b) = cur # split_from sep [] b"
    using Nil.prems(1) by (simp del: take_Suc_Cons drop_Suc_Cons)
  then show ?case by (simp add: sep)
next
  case (Cons x a)
  from Cons.prems(2) have n: "take (length sep) (x # a @ butlast sep) \<noteq> sep"
    and r: "\<not> str_includes (a @ butlast sep) sep"
    by simp_all
  from n have "take (length sep) (x # a @ sep @ b) \<noteq> sep"
    by (simp only: take_sep_prefix [OF Cons.prems(1)] not_False_eq_True)
  then have "split_from sep cur ((x # a) @ sep @ b) = split_from sep (cur @ [x]) (a @ sep @ b)"
    by simp
  with Cons.IH [OF Cons.prems(1) r, of "cur @ [x]"] show ?case by simp
qed

lemma split_from_two:
  "sep \<noteq> [] \<Longrightarrow> split_from sep cur rest = [p0, p1]
   \<Longrightarrow> \<exists>a. p0 = cur @ a \<and> rest = a @ sep @ p1
          \<and> \<not> str_includes (a @ butlast sep) sep \<and> \<not> str_includes p1 sep"
proof (induction rest arbitrary: cur)
  case Nil
  then show ?case by simp
next
  case (Cons c cs)
  show ?case
  proof (cases "take (length sep) (c # cs) = sep")
    case True
    with Cons.prems have p0: "p0 = cur"
      and rest: "split_from sep [] (drop (length sep) (c # cs)) = [p1]"
      by simp_all
    from split_from_single [OF Cons.prems(1) rest]
    have np: "\<not> str_includes p1 sep" and p1: "p1 = drop (length sep) (c # cs)" by simp_all
    have "c # cs = sep @ p1"
      using True p1 by (metis append_take_drop_id)
    moreover have "\<not> str_includes ([] @ butlast sep) sep"
      using Cons.prems(1) by (simp add: str_includes_short)
    ultimately show ?thesis using p0 np by (intro exI [of _ "[]"]) simp
  next
    case False
    with Cons.prems have "split_from sep (cur @ [c]) cs = [p0, p1]" by simp
    from Cons.IH [OF Cons.prems(1) this]
    obtain a where a: "p0 = (cur @ [c]) @ a" "cs = a @ sep @ p1"
      "\<not> str_includes (a @ butlast sep) sep" "\<not> str_includes p1 sep"
      by blast
    from False have "take (length sep) (c # a @ butlast sep) \<noteq> sep"
      by (simp only: a(2) take_sep_prefix [OF Cons.prems(1)] not_False_eq_True)
    with a(3) have "\<not> str_includes ((c # a) @ butlast sep) sep" by simp
    with a show ?thesis by (intro exI [of _ "c # a"]) simp
  qed
qed

lemma str_includes_mid: "str_includes (a @ sep @ b) sep"
proof (induction a)
  case Nil
  show ?case
  proof (cases sep)
    case Nil
    then show ?thesis by (cases b) simp_all
  next
    case (Cons c cs)
    then show ?thesis by simp
  qed
next
  case (Cons x a)
  then show ?case by simp
qed

lemma parseRelationship_by_name:
  assumes "\<not> (truthy_str (fromTable r) \<and> truthy_str (toTable r))"
  shows "parseRelationship r = Some ri \<longleftrightarrow>
     (\<exists>a b. ref_name r = Some (a @ ''_to_'' @ b)
        \<and> \<not> str_includes (a @ ''_to'') ''_to_'' \<and> \<not> str_includes b ''_to_''
        \<and> ri = \<lparr>ri_fromTable = a, ri_fromField = Some ''id'',
                 ri_toTable = b, ri_toField = Some ''id''\<rparr>)"
proof
  assume p: "parseRelationship r = Some ri"
  with assms obtain n where n: "ref_name r = Some n" "str_includes n ''_to_''"
    by (cases "ref_name r") (auto simp: parseRelationship_def truthy_str_def split: if_splits)
  with p assms obtain p0 p1 where s: "split_from ''_to_'' [] n = [p0, p1]"
    and ri: "ri = \<lparr>ri_fromTable = p0, ri_fromField = Some ''id'',
                 ri_toTable = p1, ri_toField = Some ''id''\<rparr>"
    by (auto simp: parseRelationship_def str_split_def split: if_splits list.splits)
  from split_from_two [OF _ s] obtain a where "p0 = a" "n = a @ ''_to_'' @ p1"
    "\<not> str_includes (a @ ''_to'') ''_to_''" "\<not> str_includes p1 ''_to_''"
    by auto
  with n ri show "\<exists>a b. ref_name r = Some (a @ ''_to_'' @ b)
        \<and> \<not> str_includes (a @ ''_to'') ''_to_'' \<and> \<not> str_includes b ''_to_''
        \<and> ri = \<lparr>ri_fromTable = a, ri_fromField = Some ''id'',
                 ri_toTable = b, ri_toField = Some ''id''\<rparr>"
    by blast
next
  assume "\<exists>a b. ref_name r = Some (a @ ''_to_'' @ b)
        \<and> \<not> str_includes (a @ ''_to'') ''_to_'' \<and> \<not> str_includes b ''_to_''
        \<and> ri = \<lparr>ri_fromTable = a, ri_fromField = Some ''id'',
                 ri_toTable = b, ri_toField = Some ''id''\<rparr>"
  then obtain a b where n: "ref_name r = Some (a @ ''_to_'' @ b)"
    and na: "\<not> str_includes (a @ ''_to'') ''_to_''" and nb: "\<not> str_includes b ''_to_''"
    and ri: "ri = \<lparr>ri_fromTable = a, ri_fromField = Some ''id'',
                 ri_toTable = b, ri_toField = Some ''id''\<rparr>"
    by blast
  have "split_from ''_to_'' [] (a @ ''_to_'' @ b) = ([] @ a) # split_from ''_to_'' [] b"
    by (rule split_from_first) (use na in simp_all)
  then have s: "str_split (a @ ''_to_'' @ b) ''_to_'' = [a, b]"
    by (simp add: str_split_def split_from_absent [OF nb])
  have i: "str_includes (a @ ''_to_'' @ b) ''_to_''" by (rule str_includes_mid)
  have t: "truthy_str (Some (a @ ''_to_'' @ b))" by (simp add: truthy_str_def)
  show "parseRelationship r = Some ri"
    using assms s i t by (auto simp add: parseRelationship_def n ri simp del: str_includes.simps)
qed

lemma renderRelationships_dropped:
  "parseRelationship r = None \<Longrightarrow> renderRelationships (r # rs) st = renderRelationships rs st"
  by (simp add: rr_render_def)

text \<open>
  C7, as the code has it. When the ref carries a non-empty source table and a non-empty
  target table, the endpoints are these two tables with the fields the ref carries, present
  or not. Otherwise the endpoints resolve exactly when the ref's name is \<open>a_to_b\<close> with a
  single occurrence of the separator (none in \<open>a\<close> followed by \<open>_to\<close>, none in \<open>b\<close>), and
  then to field \<open>id\<close> of \<open>a\<close> and field \<open>id\<close> of \<open>b\<close>. A ref that does not resolve is
  skipped by \<open>renderRelationships\<close>: no element, no map entry, no failure.
\<close>

theorem parseRelationship_resolution:
  "(truthy_str (fromTable r) \<and> truthy_str (toTable r) \<longrightarrow>
      parseRelationship r = Some \<lparr>ri_fromTable = the (fromTable r), ri_fromField = fromField r,
                                   ri_toTable = the (toTable r), ri_toField = toField r\<rparr>)
   \<and> (\<not> (truthy_str (fromTable r) \<and> truthy_str (toTable r)) \<longrightarrow>
      (parseRelationship r = Some ri \<longleftrightarrow>
         (\<exists>a b. ref_name r = Some (a @ ''_to_'' @ b)
            \<and> \<not> str_includes (a @ ''_to'') ''_to_'' \<and> \<not> str_includes b ''_to_''
            \<and> ri = \<lparr>ri_fromTable = a, ri_fromField = Some ''id'',
                     ri_toTable = b, ri_toField = Some ''id''\<rparr>)))
   \<and> (parseRelationship r = None \<longrightarrow> renderRelationships (r # rs) st = renderRelationships rs st)"
  using parseRelationship_by_name [of r ri] renderRelationships_dropped [of r rs st]
  by (simp add: parseRelationship_def)

theorem parseRelationship_resolution_witness:
  "truthy_str (fromTable posts_users_ref) \<and> truthy_str (toTable posts_users_ref)
   \<and> parseRelationship posts_users_ref
       = Some \<lparr>ri_fromTable = ''posts'', ri_fromField = Some ''user_id'',
                ri_toTable = ''users'', ri_toField = Some ''id''\<rparr>
   \<and> \<not> (truthy_str (fromTable orders_customers_ref) \<and> truthy_str (toTable orders_customers_ref))
   \<and> parseRelationship orders_customers_ref
       = Some \<lparr>ri_fromTable = ''orders'', ri_fromField = Some ''id'',
                ri_toTable = ''customers'', ri_toField = Some ''id''\<rparr>
   \<and> parseRelationship unresolved_ref = None
   \<and> renderRelationships [unresolved_ref] two_tables = two_tables"
proof -
  have e: "\<exists>a b. ref_name orders_customers_ref = Some (a @ ''_to_'' @ b)
            \<and> \<not> str_includes (a @ ''_to'') ''_to_'' \<and> \<not> str_includes b ''_to_''
            \<and> \<lparr>ri_fromTable = ''orders'', ri_fromField = Some ''id'',
                ri_toTable = ''customers'', ri_toField = Some ''id''\<rparr>
              = \<lparr>ri_fromTable = a, ri_fromField = Some ''id'',
                     ri_toTable = b, ri_toField = Some ''id''\<rparr>"
    by (intro exI [of _ "''orders''"] exI [of _ "''customers''"])
       (simp add: orders_customers_ref_def)
  have u: "parseRelationship unresolved_ref = None"
    by (simp add: parseRelationship_def unresolved_ref_def truthy_str_def)
  from parseRelationship_resolution [of posts_users_ref]
    parseRelationship_resolution [of orders_customers_ref
      "\<lparr>ri_fromTable = ''orders'', ri_fromField = Some ''id'',
                ri_toTable = ''customers'', ri_toField = Some ''id''\<rparr>"]
    parseRelationship_resolution [of unresolved_ref _ "[]" two_tables] e u
  show ?thesis
    by (simp add: posts_users_ref_def orders_customers_ref_def truthy_str_def)
qed

text \<open>
  C7 as worded, with the name consulted whenever table and field are not all explicit,
  fails on a ref that has both tables but no fields and is named \<open>orders_to_customers\<close>:
  it keeps its explicit tables and its absent fields, and no field \<open>id\<close> is supplied.
\<close>

theorem parseRelationship_fields_counterexample:
  "fromField orders_customers_partial_ref = None \<and> toField orders_customers_partial_ref = None
   \<and> ref_name orders_customers_partial_ref = Some (''orders'' @ ''_to_'' @ ''customers'')
   \<and> parseRelationship orders_customers_partial_ref
       = Some \<lparr>ri_fromTable = ''orders'', ri_fromField = None,
                ri_toTable = ''customers'', ri_toField = None\<rparr>
   \<and> parseRelationship orders_customers_partial_ref
       \<noteq> Some \<lparr>ri_fromTable = ''orders'', ri_fromField = Some ''id'',
                ri_toTable = ''customers'', ri_toField = Some ''id''\<rparr>"
  by (simp add: orders_customers_partial_ref_def parseRelationship_def truthy_str_def)

section \<open>Properties of the zoom\<close>

lemma zoom_notify [simp]: "zoom (notifyZoomChange st) = zoom st"
  by (simp add: notifyZoomChange_def)

lemma clamp_jsnum:
  "Math_max (Num minZoom) (Math_min (Num maxZoom) z) =
     (case z of NaN \<Rightarrow> NaN | NegInfinity \<Rightarrow> Num minZoom
      | Num r \<Rightarrow> Num (max minZoom (min maxZoom r)) | PosInfinity \<Rightarrow> Num maxZoom)"
  by (cases z) (auto simp: Math_max_def Math_min_def minZoom_def maxZoom_def)

lemma setZoom_Num:
  "setZoom (Num r) st
     = Zoomed (notifyZoomChange (updateViewport (st\<lparr>zoom := max minZoom (min maxZoom r)\<rparr>)))"
  by (simp add: setZoom_def clamp_jsnum)

lemma setZoom_infinite:
  "setZoom NegInfinity st = Zoomed (notifyZoomChange (updateViewport (st\<lparr>zoom := minZoom\<rparr>)))"
  "setZoom PosInfinity st = Zoomed (notifyZoomChange (updateViewport (st\<lparr>zoom := maxZoom\<rparr>)))"
  by (simp_all add: setZoom_def clamp_jsnum)

lemma setZoom_range:
  "z \<noteq> NaN \<Longrightarrow> \<exists>st'. setZoom z st = Zoomed st' \<and> minZoom \<le> zoom st' \<and> zoom st' \<le> maxZoom"
  by (cases z)
     (auto simp: setZoom_Num setZoom_infinite updateViewport_def minZoom_def maxZoom_def)

lemma zoom_step_range:
  assumes "minZoom \<le> zoom st" and "zoom st \<le> maxZoom" and "op \<noteq> SetZoom NaN"
  shows "\<exists>st'. zoom_step op st = Zoomed st' \<and> minZoom \<le> zoom st' \<and> zoom st' \<le> maxZoom"
proof (cases op)
  case ZoomIn
  then show ?thesis by (simp add: zoomIn_def setZoom_range)
next
  case ZoomOut
  then show ?thesis by (simp add: zoomOut_def setZoom_range)
next
  case (SetZoom z)
  with assms(3) have "z \<noteq> NaN" by simp
  with SetZoom show ?thesis by (simp add: setZoom_range)
next
  case (Wheel e)
  with assms(1,2) show ?thesis
    by (auto simp: onWheel_def updateViewport_def Let_def minZoom_def maxZoom_def)
next
  case ZoomToStandard
  then show ?thesis by (simp add: zoomToStandard_def setZoom_range)
next
  case ResetZoom
  then show ?thesis
    by (simp add: resetZoom_def updateViewport_def minZoom_def maxZoom_def)
qed

lemma zoom_run_range:
  "minZoom \<le> zoom st \<Longrightarrow> zoom st \<le> maxZoom \<Longrightarrow> SetZoom NaN \<notin> set ops
   \<Longrightarrow> \<exists>st'. zoom_run ops st = Zoomed st' \<and> minZoom \<le> zoom st' \<and> zoom st' \<le> maxZoom"
proof (induction ops arbitrary: st)
  case Nil
  then show ?case by simp
next
  case (Cons op ops)
  from Cons.prems(3) have "op \<noteq> SetZoom NaN" and rest: "SetZoom NaN \<notin> set ops" by auto
  from zoom_step_range [OF Cons.prems(1,2) this(1)]
  obtain st1 where st1: "zoom_step op st = Zoomed st1" "minZoom \<le> zoom st1" "zoom st1 \<le> maxZoom"
    by blast
  from Cons.IH [OF st1(2,3) rest] st1(1) show ?case by simp
qed

text \<open>
  C3, for arguments that are not \<^verbatim>\<open>NaN\<close>. A new diagram has zoom 1.0, and after any
  finite sequence of \<^verbatim>\<open>zoomIn()\<close>, \<^verbatim>\<open>zoomOut()\<close>, wheel events,
  \<^verbatim>\<open>zoomToStandard()\<close>, \<^verbatim>\<open>resetZoom()\<close> and \<^verbatim>\<open>setZoom(z)\<close> with any \<open>z\<close> other
  than \<^verbatim>\<open>NaN\<close>, the infinities included, the stored zoom is a number in [0.25, 3.0];
  \<^verbatim>\<open>setZoom(z)\<close> stores \<open>z\<close> clamped into that interval. No operation has a failing
  branch.
\<close>

theorem zoom_clamped_unless_NaN:
  assumes "SetZoom NaN \<notin> set ops"
  shows "zoom (new_diagram cw ch rl rt) = 1.0
   \<and> (\<exists>st'. zoom_run ops (new_diagram cw ch rl rt) = Zoomed st'
          \<and> 0.25 \<le> zoom st' \<and> zoom st' \<le> 3.0)
   \<and> (\<exists>st'. setZoom (Num r) st = Zoomed st'
          \<and> zoom st' = (if r < 0.25 then 0.25 else if 3.0 < r then 3.0 else r))
   \<and> (\<exists>st'. setZoom NegInfinity st = Zoomed st' \<and> zoom st' = 0.25)
   \<and> (\<exists>st'. setZoom PosInfinity st = Zoomed st' \<and> zoom st' = 3.0)"
proof -
  have "minZoom \<le> zoom (new_diagram cw ch rl rt)" "zoom (new_diagram cw ch rl rt) \<le> maxZoom"
    by (simp_all add: new_diagram_def minZoom_def maxZoom_def)
  from zoom_run_range [OF this assms]
  have run: "\<exists>st'. zoom_run ops (new_diagram cw ch rl rt) = Zoomed st'
          \<and> 0.25 \<le> zoom st' \<and> zoom st' \<le> 3.0"
    by (simp add: minZoom_def maxZoom_def)
  have num: "\<exists>st'. setZoom (Num r) st = Zoomed st'
          \<and> zoom st' = (if r < 0.25 then 0.25 else if 3.0 < r then 3.0 else r)"
    by (auto simp: setZoom_Num updateViewport_def minZoom_def maxZoom_def)
  have inf: "\<exists>st'. setZoom NegInfinity st = Zoomed st' \<and> zoom st' = 0.25"
    "\<exists>st'. setZoom PosInfinity st = Zoomed st' \<and> zoom st' = 3.0"
    by (simp_all add: setZoom_infinite updateViewport_def minZoom_def maxZoom_def)
  from run num inf show ?thesis by (simp add: new_diagram_def)
qed

theorem zoom_clamped_unless_NaN_witness:
  "SetZoom NaN \<notin> set zoom_ops_example
   \<and> (\<exists>st'. zoom_run zoom_ops_example (new_diagram 800 600 10 20) = Zoomed st'
          \<and> 0.25 \<le> zoom st' \<and> zoom st' \<le> 3.0)
   \<and> (\<exists>st'. setZoom (Num 10) (new_diagram 800 600 10 20) = Zoomed st' \<and> zoom st' = 3.0)"
proof -
  have h: "SetZoom NaN \<notin> set zoom_ops_example" by (simp add: zoom_ops_example_def)
  from zoom_clamped_unless_NaN [OF h, of 800 600 10 20 10 "new_diagram 800 600 10 20"] h
  show ?thesis by simp
qed

text \<open>
  C3 as worded, with \<open>z\<close> arbitrary, fails at \<^verbatim>\<open>setZoom(NaN)\<close>: \<^verbatim>\<open>Math.min\<close> and
  \<^verbatim>\<open>Math.max\<close> hand \<^verbatim>\<open>NaN\<close> through, so the zoom stored is \<^verbatim>\<open>NaN\<close>, which lies in
  no interval, and a following \<^verbatim>\<open>zoomIn()\<close> does not bring it back.
\<close>

theorem setZoom_NaN_not_clamped:
  "Math_max (Num minZoom) (Math_min (Num maxZoom) NaN) = NaN
   \<and> setZoom NaN (new_diagram 800 600 10 20) = ZoomIsNaN
   \<and> zoom_run [SetZoom NaN] (new_diagram 800 600 10 20) = ZoomIsNaN
   \<and> zoom_run [SetZoom NaN, ZoomIn] (new_diagram 800 600 10 20) = ZoomIsNaN"
  by (simp add: setZoom_def Math_max_def Math_min_def)

lemma anchor_algebra:
  fixes m p z z' :: real
  assumes "z' \<noteq> 0"
  shows "(m - (p + (m - ((m - p) / z * z' + p)))) / z' = (m - p) / z"
proof -
  have "m - (p + (m - ((m - p) / z * z' + p))) = (m - p) / z * z'"
    by simp
  then show ?thesis using assms by simp
qed

lemma anchored_state:
  assumes "nz \<noteq> 0"
  shows "screenToWorld
           (notifyZoomChange (updateViewport
              (st\<lparr>zoom := nz,
                  pan_x := pan_x st + (mx - fst (worldToScreen (st\<lparr>zoom := nz\<rparr>)
                             (fst (screenToWorld st mx my)) (snd (screenToWorld st mx my)))),
                  pan_y := pan_y st + (my - snd (worldToScreen (st\<lparr>zoom := nz\<rparr>)
                             (fst (screenToWorld st mx my)) (snd (screenToWorld st mx my))))\<rparr>)))
           mx my
         = screenToWorld st mx my"
  using anchor_algebra [OF assms, of mx "pan_x st" "zoom st"]
    anchor_algebra [OF assms, of my "pan_y st" "zoom st"]
  by (simp add: screenToWorld_def worldToScreen_def notifyZoomChange_def updateViewport_def)

lemma onWheel_unfold:
  "onWheel e st =
     (let mx = we_clientX e - rect_left st; my = we_clientY e - rect_top st;
          nz = max minZoom (min maxZoom (zoom st * (if we_deltaY e > 0 then 0.95 else 1.05)))
      in if nz = zoom st then st
         else notifyZoomChange (updateViewport
              (st\<lparr>zoom := nz,
                  pan_x := pan_x st + (mx - fst (worldToScreen (st\<lparr>zoom := nz\<rparr>)
                             (fst (screenToWorld st mx my)) (snd (screenToWorld st mx my)))),
                  pan_y := pan_y st + (my - snd (worldToScreen (st\<lparr>zoom := nz\<rparr>)
                             (fst (screenToWorld st mx my)) (snd (screenToWorld st mx my))))\<rparr>)))"
  unfolding onWheel_def Let_def by simp

text \<open>
  C2. For every state with zoom in [0.25, 3.0], every pan offset and every pointer
  position, one wheel event at that pointer leaves \<open>screenToWorld\<close> of the pointer's
  screen position unchanged: the world point under the pointer does not move. In exact
  arithmetic the two points are equal.
\<close>

theorem wheel_zoom_anchored:
  "0.25 \<le> zoom st \<Longrightarrow> zoom st \<le> 3.0
   \<Longrightarrow> screenToWorld (onWheel e st) (we_clientX e - rect_left st) (we_clientY e - rect_top st)
       = screenToWorld st (we_clientX e - rect_left st) (we_clientY e - rect_top st)"
proof -
  define nz where
    "nz = max minZoom (min maxZoom (zoom st * (if we_deltaY e > 0 then 0.95 else 1.05)))"
  have pos: "nz \<noteq> 0"
    unfolding nz_def minZoom_def maxZoom_def by (simp add: max_def min_def)
  show ?thesis
    unfolding onWheel_unfold Let_def nz_def [symmetric]
    using anchored_state [OF pos] by (cases "nz = zoom st") simp_all
qed

theorem wheel_zoom_anchored_witness:
  "0.25 \<le> zoom (new_diagram 800 600 10 20) \<and> zoom (new_diagram 800 600 10 20) \<le> 3.0
   \<and> zoom (onWheel \<lparr>we_clientX = 110, we_clientY = 220, we_deltaY = - 1\<rparr> (new_diagram 800 600 10 20)) = 1.05
   \<and> pan_x (onWheel \<lparr>we_clientX = 110, we_clientY = 220, we_deltaY = - 1\<rparr> (new_diagram 800 600 10 20)) = - 5
   \<and> screenToWorld (onWheel \<lparr>we_clientX = 110, we_clientY = 220, we_deltaY = - 1\<rparr> (new_diagram 800 600 10 20)) 100 200
       = (100, 200)"
  using wheel_zoom_anchored [of "new_diagram 800 600 10 20" "\<lparr>we_clientX = 110, we_clientY = 220, we_deltaY = - 1\<rparr>"]
  by (simp add: new_diagram_def onWheel_def Let_def screenToWorld_def worldToScreen_def
        updateViewport_def notifyZoomChange_def minZoom_def maxZoom_def)

text \<open>
  C10. A wheel event whose clamped new zoom equals the current zoom changes nothing:
  the whole state (zoom, pan, viewport transform, notifications sent) stays as it was.
  This is the case at zoom 3.0 when zooming in and at zoom 0.25 when zooming out.
\<close>

theorem wheel_at_bound_unchanged:
  "(max 0.25 (min 3.0 (zoom st * (if we_deltaY e > 0 then 0.95 else 1.05))) = zoom st
      \<longrightarrow> onWheel e st = st)
   \<and> (zoom st = 3.0 \<and> \<not> we_deltaY e > 0 \<longrightarrow> onWheel e st = st)
   \<and> (zoom st = 0.25 \<and> we_deltaY e > 0 \<longrightarrow> onWheel e st = st)"
  by (simp add: onWheel_def Let_def minZoom_def maxZoom_def)

theorem wheel_at_bound_unchanged_witness:
  "zoom ((new_diagram 800 600 10 20)\<lparr>zoom := 3\<rparr>) = 3.0
   \<and> onWheel \<lparr>we_clientX = 110, we_clientY = 220, we_deltaY = - 1\<rparr>
         ((new_diagram 800 600 10 20)\<lparr>zoom := 3\<rparr>)
       = (new_diagram 800 600 10 20)\<lparr>zoom := 3\<rparr>
   \<and> zoom ((new_diagram 800 600 10 20)\<lparr>zoom := 0.25\<rparr>) = 0.25
   \<and> onWheel \<lparr>we_clientX = 110, we_clientY = 220, we_deltaY = 1\<rparr>
         ((new_diagram 800 600 10 20)\<lparr>zoom := 0.25\<rparr>)
       = (new_diagram 800 600 10 20)\<lparr>zoom := 0.25\<rparr>"
  using wheel_at_bound_unchanged [of "(new_diagram 800 600 10 20)\<lparr>zoom := 3\<rparr>"
      "\<lparr>we_clientX = 110, we_clientY = 220, we_deltaY = - 1\<rparr>"]
    wheel_at_bound_unchanged [of "(new_diagram 800 600 10 20)\<lparr>zoom := 0.25\<rparr>"
      "\<lparr>we_clientX = 110, we_clientY = 220, we_deltaY = 1\<rparr>"]
  by simp

section \<open>Properties of rendering\<close>


lemma map_get_map_set [simp]: "map_get (map_set k v m) k = Some v"
  by (induction m) (auto simp: map_get_def)


lemma length_table_entries [simp]: "length (table_entries index el ts) = length ts"
  by (induction ts arbitrary: index el) auto

lemma keys_table_entries [simp]: "map fst (table_entries index el ts) = map table_key ts"
  by (induction ts arbitrary: index el) auto



lemma tables_updatePath_each [simp]: "tables (updatePath_each es st) = tables st"
  by (induction es arbitrary: st) auto

lemma table_elems_updatePath [simp]: "table_elems (updatePath rr st) = table_elems st"
  by (simp add: updatePath_def Let_def split: option.splits prod.splits)

lemma table_elems_updatePath_each [simp]: "table_elems (updatePath_each es st) = table_elems st"
  by (induction es arbitrary: st) auto

lemma tables_rr_render [simp]: "tables (snd (snd (rr_render rr st))) = tables st"
  by (simp add: rr_render_def Let_def split: option.splits)

lemma tables_renderRelationships [simp]: "tables (renderRelationships rs st) = tables st"
proof (induction rs arbitrary: st)
  case Nil
  then show ?case by simp
next
  case (Cons r rs)
  obtain rr el st1 where rr: "rr_render \<lparr>rr_ref = r, rr_element = None, rr_relInfo = None\<rparr> st = (rr, el, st1)"
    by (cases "rr_render \<lparr>rr_ref = r, rr_element = None, rr_relInfo = None\<rparr> st") auto
  then have "tables st1 = tables st"
    using tables_rr_render [of "\<lparr>rr_ref = r, rr_element = None, rr_relInfo = None\<rparr>" st] by simp
  then show ?case using rr by (cases el) (simp_all add: Cons.IH)
qed

lemma autoLayout_tables_Cons:
  "autoLayout_tables index ((key, tableData) # es) els =
     ((key, tableData\<lparr>td_x := real (index mod 3) * 300 + 50, td_y := real (index div 3) * 250 + 50\<rparr>)
        # fst (autoLayout_tables (Suc index) es
             (els(td_element tableData :=
                \<lparr>attr_x = real (index mod 3) * 300 + 50, attr_y = real (index div 3) * 250 + 50\<rparr>))),
      snd (autoLayout_tables (Suc index) es
             (els(td_element tableData :=
                \<lparr>attr_x = real (index mod 3) * 300 + 50, attr_y = real (index div 3) * 250 + 50\<rparr>))))"
  by (simp add: Let_def split: prod.splits)

lemma length_autoLayout_tables [simp]:
  "length (fst (autoLayout_tables index es els)) = length es"
proof (induction es arbitrary: index els)
  case Nil
  then show ?case by simp
next
  case (Cons e es)
  then show ?case by (cases e) (simp add: autoLayout_tables_Cons del: autoLayout_tables.simps)
qed

lemma keys_autoLayout_tables [simp]:
  "map fst (fst (autoLayout_tables index es els)) = map fst es"
proof (induction es arbitrary: index els)
  case Nil
  then show ?case by simp
next
  case (Cons e es)
  then show ?case by (cases e) (simp add: autoLayout_tables_Cons del: autoLayout_tables.simps)
qed


lemma table_elems_rr_render [simp]: "table_elems (snd (snd (rr_render rr st))) = table_elems st"
  by (simp add: rr_render_def Let_def split: option.splits)

lemma table_elems_renderRelationships [simp]:
  "table_elems (renderRelationships rs st) = table_elems st"
proof (induction rs arbitrary: st)
  case Nil
  then show ?case by simp
next
  case (Cons r rs)
  obtain rr el st1 where rr: "rr_render \<lparr>rr_ref = r, rr_element = None, rr_relInfo = None\<rparr> st = (rr, el, st1)"
    by (cases "rr_render \<lparr>rr_ref = r, rr_element = None, rr_relInfo = None\<rparr> st") auto
  then have "table_elems st1 = table_elems st"
    using table_elems_rr_render [of "\<lparr>rr_ref = r, rr_element = None, rr_relInfo = None\<rparr>" st] by simp
  then show ?case using rr by (cases el) (simp_all add: Cons.IH)
qed














text \<open>
  C9. When the argument of \<open>render\<close> is missing, has no \<^verbatim>\<open>schemas\<close>, an empty
  \<^verbatim>\<open>schemas\<close> array or an absent first schema, \<open>render\<close> does what \<open>clearDiagram\<close>
  does and no more: both maps and both layers become empty, everything else stays.
\<close>

theorem render_missing_schema_clears:
  "render None st = clearDiagram st
   \<and> render (Some \<lparr>schemas = None\<rparr>) st = clearDiagram st
   \<and> render (Some \<lparr>schemas = Some []\<rparr>) st = clearDiagram st
   \<and> render (Some \<lparr>schemas = Some (None # rest)\<rparr>) st = clearDiagram st
   \<and> clearDiagram st = st\<lparr>layer_tables := [], layer_refs := [], tables := [], relationships := []\<rparr>
   \<and> tables (clearDiagram st) = [] \<and> relationships (clearDiagram st) = []
   \<and> layer_tables (clearDiagram st) = [] \<and> layer_refs (clearDiagram st) = []"
  by (simp add: render_def first_schema_def clearDiagram_def)

section \<open>Properties of the drag gesture\<close>

lemma tables_updateAllRelationships [simp]: "tables (updateAllRelationships st) = tables st"
  by (simp add: updateAllRelationships_def)

lemma table_elems_updateAllRelationships [simp]:
  "table_elems (updateAllRelationships st) = table_elems st"
  by (simp add: updateAllRelationships_def)

text \<open>
  What a move event stores while a drag is in progress (after \<open>onMouseDown\<close>), for a
  table that is in the table map: the position the element had at drag start plus the
  pointer's screen-space delta as it is, clamped in each axis to
  \<open>[-1000, clientExtent / zoom + 1000]\<close>; the element gets the same position.
\<close>

lemma onMouseMove_stores:
  assumes "0.25 \<le> zoom st" and "zoom st \<le> 3.0"
    and "map_get (tables st) (table_key (drag_table d)) = Some td"
  shows "map_get (tables (onMouseMove (onMouseDown d e0 st0) e st)) (table_key (drag_table d))
       = Some (td\<lparr>td_x := max (- 1000)
                       (min (attr_x (table_elems st0 (drag_element d))
                              + ((me_clientX e - rect_left st) - (me_clientX e0 - rect_left st0)))
                            (client_width st / zoom st + 1000)),
                  td_y := max (- 1000)
                       (min (attr_y (table_elems st0 (drag_element d))
                              + ((me_clientY e - rect_top st) - (me_clientY e0 - rect_top st0)))
                            (client_height st / zoom st + 1000))\<rparr>)
     \<and> table_elems (onMouseMove (onMouseDown d e0 st0) e st) (drag_element d)
       = \<lparr>attr_x = max (- 1000)
                       (min (attr_x (table_elems st0 (drag_element d))
                              + ((me_clientX e - rect_left st) - (me_clientX e0 - rect_left st0)))
                            (client_width st / zoom st + 1000)),
          attr_y = max (- 1000)
                       (min (attr_y (table_elems st0 (drag_element d))
                              + ((me_clientY e - rect_top st) - (me_clientY e0 - rect_top st0)))
                            (client_height st / zoom st + 1000))\<rparr>"
  using assms(3) by (simp add: onMouseMove_def onMouseDown_def Let_def)

lemma dragged_state_simps:
  "zoom dragged_state = 2" "client_width dragged_state = 800" "client_height dragged_state = 600"
  "rect_left dragged_state = 10" "rect_top dragged_state = 20"
  "table_elems dragged_state 0 = \<lparr>attr_x = 50, attr_y = 50\<rparr>"
  "tables dragged_state = [(KStr ''users'', users_data), (KNum 1, posts_data)]"
  by (simp_all add: dragged_state_def two_tables_def new_diagram_def)

lemma onMouseMove_stores_example:
  "0.25 \<le> zoom dragged_state \<and> zoom dragged_state \<le> 3.0
   \<and> map_get (tables dragged_state) (table_key (drag_table users_drag)) = Some users_data
   \<and> map_get (tables (onMouseMove (onMouseDown users_drag \<lparr>me_clientX = 110, me_clientY = 120\<rparr> dragged_state)
                          \<lparr>me_clientX = 210, me_clientY = 70\<rparr> dragged_state)) (KStr ''users'')
       = Some (users_data\<lparr>td_x := 150, td_y := 0\<rparr>)
   \<and> map_get (tables (onMouseMove (onMouseDown users_drag \<lparr>me_clientX = 110, me_clientY = 120\<rparr> dragged_state)
                          \<lparr>me_clientX = - 4890, me_clientY = 9000\<rparr> dragged_state)) (KStr ''users'')
       = Some (users_data\<lparr>td_x := - 1000, td_y := 1300\<rparr>)"
proof -
  have k: "table_key (drag_table users_drag) = KStr ''users''"
    by (simp add: users_drag_def makeDraggable_def users_table_def table_key_def truthy_num_def)
  have e: "drag_element users_drag = 0" by (simp add: users_drag_def makeDraggable_def)
  have g: "map_get (tables dragged_state) (table_key (drag_table users_drag)) = Some users_data"
    by (simp add: k dragged_state_simps map_get_def)
  have z: "0.25 \<le> zoom dragged_state" "zoom dragged_state \<le> 3.0"
    by (simp_all add: dragged_state_simps)
  from onMouseMove_stores [OF z g, of "\<lparr>me_clientX = 110, me_clientY = 120\<rparr>" dragged_state "\<lparr>me_clientX = 210, me_clientY = 70\<rparr>"]
    onMouseMove_stores [OF z g, of "\<lparr>me_clientX = 110, me_clientY = 120\<rparr>" dragged_state "\<lparr>me_clientX = - 4890, me_clientY = 9000\<rparr>"]
    z g
  show ?thesis by (simp add: k e dragged_state_simps)
qed

text \<open>
  C1. Table positions are world units: the viewport layer is drawn under
  \<^verbatim>\<open>scale(zoom)\<close>, and the handler divides the extent in its own clamp bound by the
  zoom. The position the claim states, start plus screen delta divided by the zoom, is the
  one that keeps the table under the pointer. The handler adds the delta undivided: at
  zoom 2, from x = 50, a pointer moved by 100 screen units stores 150 where the claim
  gives 100, and the table travels 200 units on screen.
\<close>

theorem drag_delta_not_divided_by_zoom:
  "zoom dragged_state = 2
   \<and> attr_x (table_elems dragged_state (drag_element users_drag)) = 50
   \<and> td_x (the (map_get (tables (onMouseMove
          (onMouseDown users_drag \<lparr>me_clientX = 110, me_clientY = 120\<rparr> dragged_state)
          \<lparr>me_clientX = 210, me_clientY = 120\<rparr> dragged_state)) (table_key users_table))) = 150
   \<and> max (- 1000)
         (min (attr_x (table_elems dragged_state (drag_element users_drag))
                 + ((210 - rect_left dragged_state) - (110 - rect_left dragged_state)) / zoom dragged_state)
              (client_width dragged_state / zoom dragged_state + 1000)) = 100
   \<and> fst (worldToScreen dragged_state 150 50) - fst (worldToScreen dragged_state 50 50) = 200"
proof -
  have k: "table_key users_table = KStr ''users''"
    by (simp add: users_table_def table_key_def truthy_num_def)
  have e: "drag_element users_drag = 0" "drag_table users_drag = users_table"
    "isDragging users_drag = False"
    by (simp_all add: users_drag_def makeDraggable_def)
  show ?thesis
    by (simp add: k e dragged_state_simps onMouseMove_def onMouseDown_def Let_def map_get_def
        worldToScreen_def)
qed

end
